theory Spec2Isabelle
  imports Main "HOL-Library.Multiset"
begin

section \<open>The task scheduler of script.js\<close>

text \<open>
  The model covers the classes \<open>Task\<close> and \<open>TaskManager\<close> of script.js and the submit
  handler of the add-task form. A string is a \<open>string\<close>, the list of its code units, each
  below 256 (the Latin-1 range); the boolean field is \<open>bool\<close>.
  A JavaScript number that the code computes is an \<open>int option\<close>, with \<open>None\<close> for NaN;
  a \<open>Date\<close> object is its time value in milliseconds, with \<open>None\<close> for an Invalid Date.

  What the host provides is a parameter of the model: the date parser behind
  \<open>new Date(string)\<close>, \<open>Date.prototype.toISOString\<close>, and the readings of \<open>Date.now()\<close>.
\<close>

subsection \<open>Numbers and dates\<close>

type_synonym number = "int option"

type_synonym date = "int option"

record env =
  parseDate :: "string \<Rightarrow> int option"
  isoString :: "int \<Rightarrow> string"

text \<open>\<open>new Date(str)\<close> for a string: the host's parser decides the time value.\<close>

definition newDate :: "env \<Rightarrow> string \<Rightarrow> date" where
  "newDate e str = parseDate e str"

text \<open>\<open>d.getTime()\<close>: the time value, NaN for an Invalid Date.\<close>

definition getTime :: "date \<Rightarrow> number" where
  "getTime d = d"

datatype exn = RangeError

text \<open>\<open>d.toISOString()\<close> throws a RangeError on an Invalid Date.\<close>

definition toISOString :: "env \<Rightarrow> date \<Rightarrow> exn + string" where
  "toISOString e d = (case d of None \<Rightarrow> Inl RangeError | Some t \<Rightarrow> Inr (isoString e t))"

text \<open>Subtraction of two numbers: NaN when either side is NaN. Time values and ranks are
  integers; of the difference only the sign is ever used.\<close>

definition minus_number :: "number \<Rightarrow> number \<Rightarrow> number" where
  "minus_number x y =
     (case x of None \<Rightarrow> None
      | Some a \<Rightarrow> (case y of None \<Rightarrow> None | Some b \<Rightarrow> Some (a - b)))"

text \<open>\<open>n.toString()\<close> for an integral number such as \<open>Date.now()\<close>: decimal digits.\<close>

fun digits :: "nat \<Rightarrow> string" where
  "digits n =
     (if n < 10 then [''0123456789'' ! n]
      else digits (n div 10) @ [''0123456789'' ! (n mod 10)])"

declare digits.simps [simp del]

definition toString :: "int \<Rightarrow> string" where
  "toString n = (if n < 0 then CHR ''-'' # digits (nat (- n)) else digits (nat n))"

subsection \<open>Task\<close>

record task =
  taskId :: string
  name :: string
  description :: string
  dueDate :: date
  priority :: string
  isCompleted :: bool

text \<open>The constructor: the id is the clock reading, in decimal.\<close>

definition Task :: "int \<Rightarrow> string \<Rightarrow> string \<Rightarrow> date \<Rightarrow> string \<Rightarrow> bool \<Rightarrow> task" where
  "Task now name0 description0 dueDate0 priority0 isCompleted0 =
     \<lparr>taskId = toString now, name = name0, description = description0,
      dueDate = dueDate0, priority = priority0, isCompleted = isCompleted0\<rparr>"

subsection \<open>The comparator of sortTasks\<close>

text \<open>
  \<open>priorityOrder[p]\<close> is a property lookup on an object literal: the three own keys give
  their rank, a name that \<open>Object.prototype\<close> defines gives the inherited object, and
  every other name gives \<open>undefined\<close>.
\<close>

datatype lookup = Rank int | Inherited string | Undefined

definition objectPrototypeKeys :: "string list" where
  "objectPrototypeKeys =
     [''constructor'', ''hasOwnProperty'', ''isPrototypeOf'', ''propertyIsEnumerable'',
      ''toLocaleString'', ''toString'', ''valueOf'', ''__proto__'',
      ''__defineGetter__'', ''__defineSetter__'', ''__lookupGetter__'', ''__lookupSetter__'']"

definition priorityOrder :: "string \<Rightarrow> lookup" where
  "priorityOrder p =
     (if p = ''High'' then Rank 1
      else if p = ''Medium'' then Rank 2
      else if p = ''Low'' then Rank 3
      else if p \<in> set objectPrototypeKeys then Inherited p
      else Undefined)"

text \<open>The operands of \<open>-\<close> are converted to numbers: only a rank is one.\<close>

fun toNumber :: "lookup \<Rightarrow> number" where
  "toNumber (Rank n) = Some n"
| "toNumber (Inherited p) = None"
| "toNumber Undefined = None"

definition compareTasks :: "task \<Rightarrow> task \<Rightarrow> number" where
  "compareTasks a b =
     (if isCompleted a \<noteq> isCompleted b then Some (if isCompleted a then 1 else - 1)
      else if priorityOrder (priority a) \<noteq> priorityOrder (priority b)
        then minus_number (toNumber (priorityOrder (priority a)))
                          (toNumber (priorityOrder (priority b)))
      else minus_number (getTime (dueDate a)) (getTime (dueDate b)))"

subsection \<open>Array.prototype.sort\<close>

text \<open>
  The sort of the language is stable, and a NaN from the comparator counts as 0. For a
  consistent comparator every stable sort gives the same array, so the model is an
  insertion sort: the elements are inserted from the last to the first, each before the
  first element that it does not follow.
\<close>

definition sortCompare :: "('a \<Rightarrow> 'a \<Rightarrow> number) \<Rightarrow> 'a \<Rightarrow> 'a \<Rightarrow> int" where
  "sortCompare comparefn x y = (case comparefn x y of None \<Rightarrow> 0 | Some v \<Rightarrow> v)"

fun insertSorted :: "('a \<Rightarrow> 'a \<Rightarrow> number) \<Rightarrow> 'a \<Rightarrow> 'a list \<Rightarrow> 'a list" where
  "insertSorted comparefn x [] = [x]"
| "insertSorted comparefn x (y # ys) =
     (if sortCompare comparefn x y \<le> 0 then x # y # ys
      else y # insertSorted comparefn x ys)"

definition sort_array :: "('a \<Rightarrow> 'a \<Rightarrow> number) \<Rightarrow> 'a list \<Rightarrow> 'a list" where
  "sort_array comparefn xs = foldr (insertSorted comparefn) xs []"

subsection \<open>The persisted record\<close>

text \<open>
  One element of the stored array, as \<open>saveTasks\<close> writes it. A record of an older format
  may lack the id, which \<open>loadTasks\<close> provides for.
\<close>

record data =
  data_id :: "string option"
  data_name :: string
  data_description :: string
  data_dueDate :: string
  data_priority :: string
  data_isCompleted :: bool

text \<open>
  The text under the key \<open>tasks\<close>, by what \<open>loadTasks\<close> does with it: the empty string is
  falsy and is not parsed; \<open>Unparseable\<close> is a text on which \<open>JSON.parse\<close> or the mapping
  over the parsed value throws (not JSON, not an array, a \<open>null\<close> element);
  \<open>Records\<close> is the JSON text of an array of objects, which \<open>JSON.stringify\<close> writes and
  \<open>JSON.parse\<close> reads back. Elements whose fields hold values of other JSON types are
  outside the model.
\<close>

datatype stored = EmptyText | Unparseable | Records "data list"

datatype event = ConsoleError string | Alert string

record state =
  tasks :: "task list"
  localStorage :: "stored option"
  emitted :: "event list"

subsection \<open>TaskManager\<close>

text \<open>\<open>sortTasks\<close>: the array is sorted in place with the comparator above.\<close>

definition sortTasks :: "state \<Rightarrow> state" where
  "sortTasks s = s\<lparr>tasks := sort_array compareTasks (tasks s)\<rparr>"

text \<open>
  \<open>saveTasks\<close>: every task is mapped to its stored record, then the whole array is written
  under the key. \<open>toISOString\<close> throws on an Invalid Date; the exception leaves the mapping
  before anything is written. The storage is taken to accept the write.
\<close>

definition encode :: "env \<Rightarrow> task \<Rightarrow> exn + data" where
  "encode e t =
     (case toISOString e (dueDate t) of
        Inl x \<Rightarrow> Inl x
      | Inr str \<Rightarrow>
          Inr \<lparr>data_id = Some (taskId t), data_name = name t,
               data_description = description t, data_dueDate = str,
               data_priority = priority t, data_isCompleted = isCompleted t\<rparr>)"

fun encodeAll :: "env \<Rightarrow> task list \<Rightarrow> exn + data list" where
  "encodeAll e [] = Inr []"
| "encodeAll e (t # ts) =
     (case encode e t of
        Inl x \<Rightarrow> Inl x
      | Inr d \<Rightarrow> (case encodeAll e ts of Inl x \<Rightarrow> Inl x | Inr ds \<Rightarrow> Inr (d # ds)))"

definition saveTasks :: "env \<Rightarrow> state \<Rightarrow> exn + state" where
  "saveTasks e s =
     (case encodeAll e (tasks s) of
        Inl x \<Rightarrow> Inl x
      | Inr ds \<Rightarrow> Inr (s\<lparr>localStorage := Some (Records ds)\<rparr>))"

text \<open>
  \<open>addTask\<close>: \<open>now\<close> is the reading of \<open>Date.now()\<close> in the constructor. The \<open>catch\<close> block
  takes every exception of the \<open>try\<close> block, the one of \<open>saveTasks\<close> too, after the array
  has been changed.
\<close>

definition addTaskCatch :: "state \<Rightarrow> bool \<times> state" where
  "addTaskCatch s =
     (False, s\<lparr>emitted := emitted s @
        [ConsoleError ''Error adding task:'',
         Alert ''Error: Invalid date/time. Please ensure it's a valid date and time.'']\<rparr>)"

definition addTask ::
  "env \<Rightarrow> int \<Rightarrow> string \<Rightarrow> string \<Rightarrow> string \<Rightarrow> string \<Rightarrow> state \<Rightarrow> bool \<times> state" where
  "addTask e now name0 description0 dueDateStr priority0 s =
     (let dueDate0 = newDate e dueDateStr in
      if getTime dueDate0 = None then addTaskCatch s
      else
        let newTask = Task now name0 description0 dueDate0 priority0 False;
            s1 = s\<lparr>tasks := tasks s @ [newTask]\<rparr>;
            s2 = sortTasks s1
        in (case saveTasks e s2 of
              Inl x \<Rightarrow> addTaskCatch s2
            | Inr s3 \<Rightarrow> (True, s3)))"

text \<open>
  \<open>removeTask\<close> and \<open>toggleCompleteTask\<close> have no \<open>try\<close>: an exception of \<open>saveTasks\<close>
  leaves them (\<open>Inl\<close>), with the array already changed.
\<close>

definition removeTask :: "env \<Rightarrow> string \<Rightarrow> state \<Rightarrow> (exn + bool) \<times> state" where
  "removeTask e tid s =
     (let initialLength = length (tasks s);
          s1 = s\<lparr>tasks := filter (\<lambda>t. taskId t \<noteq> tid) (tasks s)\<rparr>
      in if length (tasks s1) < initialLength
         then (case saveTasks e s1 of
                 Inl x \<Rightarrow> (Inl x, s1)
               | Inr s2 \<Rightarrow> (Inr True, s2))
         else (Inr False, s1))"

definition getTaskById :: "string \<Rightarrow> state \<Rightarrow> task option" where
  "getTaskById tid s = find (\<lambda>t. taskId t = tid) (tasks s)"

text \<open>The assignment to the object that \<open>find\<close> returned: the first task with the id
  changes where it stands in the array.\<close>

fun toggleFound :: "string \<Rightarrow> task list \<Rightarrow> task list" where
  "toggleFound tid [] = []"
| "toggleFound tid (t # ts) =
     (if taskId t = tid then t\<lparr>isCompleted := \<not> isCompleted t\<rparr> # ts
      else t # toggleFound tid ts)"

definition toggleCompleteTask :: "env \<Rightarrow> string \<Rightarrow> state \<Rightarrow> (exn + bool) \<times> state" where
  "toggleCompleteTask e tid s =
     (case find (\<lambda>t. taskId t = tid) (tasks s) of
        None \<Rightarrow> (Inr False, s)
      | Some found \<Rightarrow>
          let s1 = s\<lparr>tasks := toggleFound tid (tasks s)\<rparr>;
              s2 = sortTasks s1
          in (case saveTasks e s2 of
                Inl x \<Rightarrow> (Inl x, s2)
              | Inr s3 \<Rightarrow> (Inr True, s3)))"

text \<open>
  \<open>loadTasks\<close>: \<open>clock i\<close> is the reading of \<open>Date.now()\<close> while the record at index \<open>i\<close> is
  rebuilt. The id that the constructor sets is overwritten by the stored id, or by a new
  reading when the stored id is missing or empty (\<open>data.id || ...\<close>).
\<close>

definition loadRecord :: "env \<Rightarrow> int \<Rightarrow> data \<Rightarrow> task" where
  "loadRecord e now d =
     (Task now (data_name d) (data_description d) (newDate e (data_dueDate d))
           (data_priority d) (data_isCompleted d))
       \<lparr>taskId := (case data_id d of
                     None \<Rightarrow> toString now
                   | Some i \<Rightarrow> if i \<noteq> [] then i else toString now)\<rparr>"

definition loadTasks :: "env \<Rightarrow> (nat \<Rightarrow> int) \<Rightarrow> stored option \<Rightarrow> task list \<times> event list" where
  "loadTasks e clock item =
     (case item of
        None \<Rightarrow> ([], [])
      | Some EmptyText \<Rightarrow> ([], [])
      | Some Unparseable \<Rightarrow> ([], [ConsoleError ''Error loading tasks from local storage:''])
      | Some (Records ds) \<Rightarrow> (map (\<lambda>(i, d). loadRecord e (clock i) d) (enumerate 0 ds), []))"

text \<open>The constructor of \<open>TaskManager\<close>.\<close>

definition TaskManager :: "env \<Rightarrow> (nat \<Rightarrow> int) \<Rightarrow> stored option \<Rightarrow> state" where
  "TaskManager e clock item =
     \<lparr>tasks = fst (loadTasks e clock item), localStorage = item,
      emitted = snd (loadTasks e clock item)\<rparr>"

subsection \<open>The submit handler of the add-task form\<close>

text \<open>
  \<open>trim\<close> strips white space and line terminators from both ends. Of these, the code
  units below 256 are TAB, LF, VT, FF, CR, SPACE and NO-BREAK SPACE (U+00A0); the others
  (U+1680, U+2000 to U+200A, U+2028, U+2029, U+202F, U+205F, U+3000, U+FEFF) are not
  code units of a \<open>string\<close>. The rendering of the page is left out, but for the sort
  that \<open>updateTaskListUI\<close> calls.
\<close>

definition isWhiteSpace :: "char \<Rightarrow> bool" where
  "isWhiteSpace c =
     (c \<in> set [CHR 0x09, CHR 0x0A, CHR 0x0B, CHR 0x0C, CHR 0x0D, CHR '' '', CHR 0xA0])"

definition trim :: "string \<Rightarrow> string" where
  "trim str = rev (dropWhile isWhiteSpace (rev (dropWhile isWhiteSpace str)))"

definition updateTaskListUI :: "state \<Rightarrow> state" where
  "updateTaskListUI s = sortTasks s"

definition submitAddTaskForm ::
  "env \<Rightarrow> int \<Rightarrow> string \<Rightarrow> string \<Rightarrow> string \<Rightarrow> string \<Rightarrow> state \<Rightarrow> state" where
  "submitAddTaskForm e now nameInput descriptionInput dueDateInput priorityInput s =
     (let name0 = trim nameInput;
          description0 = trim descriptionInput
      in if name0 \<noteq> [] \<and> dueDateInput \<noteq> []
         then (case addTask e now name0 description0 dueDateInput priorityInput s of
                 (True, s1) \<Rightarrow> updateTaskListUI s1
               | (False, s1) \<Rightarrow> s1)
         else s\<lparr>emitted := emitted s @ [Alert ''Task Name and Due Date are required!'']\<rparr>)"

section \<open>The notions of the specification\<close>

subsection \<open>Tasks of the data model and the sort key\<close>

text \<open>
  A task of the specification's data model has one of the three priorities and a valid
  due date. JavaScript has no types that say so; the properties below state it where
  they need it.
\<close>

definition validPriority :: "string \<Rightarrow> bool" where
  "validPriority p = (p \<in> set [''High'', ''Medium'', ''Low''])"

definition wellFormed :: "task \<Rightarrow> bool" where
  "wellFormed t = (validPriority (priority t) \<and> dueDate t \<noteq> None)"

text \<open>
  The sort key tuple in the specification's words: completion status with incomplete
  first, priority rank with High before Medium before Low, due date ascending; the tuples
  are compared lexicographically.
\<close>

definition priorityRank :: "string \<Rightarrow> nat option" where
  "priorityRank p =
     (if p = ''High'' then Some 1
      else if p = ''Medium'' then Some 2
      else if p = ''Low'' then Some 3
      else None)"

definition sortKey :: "task \<Rightarrow> (bool \<times> nat \<times> int) option" where
  "sortKey t =
     (case priorityRank (priority t) of
        None \<Rightarrow> None
      | Some r \<Rightarrow> (case dueDate t of None \<Rightarrow> None | Some d \<Rightarrow> Some (isCompleted t, r, d)))"

fun keyLe :: "bool \<times> nat \<times> int \<Rightarrow> bool \<times> nat \<times> int \<Rightarrow> bool" where
  "keyLe (c1, r1, d1) (c2, r2, d2) =
     ((\<not> c1 \<and> c2) \<or> (c1 = c2 \<and> (r1 < r2 \<or> (r1 = r2 \<and> d1 \<le> d2))))"

definition precedes :: "task \<Rightarrow> task \<Rightarrow> bool" where
  "precedes a b =
     (case sortKey a of
        None \<Rightarrow> False
      | Some ka \<Rightarrow> (case sortKey b of None \<Rightarrow> False | Some kb \<Rightarrow> keyLe ka kb))"

text \<open>
  A task that \<open>saveTasks\<close> can write and \<open>loadTasks\<close> reads back as it was: the id is not
  empty, the due date is valid, and the host's parser reads the host's ISO string of the
  due date back to the same instant.
\<close>

definition storable :: "env \<Rightarrow> task \<Rightarrow> bool" where
  "storable e t =
     (taskId t \<noteq> [] \<and>
      (case dueDate t of None \<Rightarrow> False | Some d \<Rightarrow> parseDate e (isoString e d) = Some d))"

text \<open>
  The persisted layout of the specification: the stored object of a task has the task's
  id, name, description, priority and completion flag, and the host's ISO string of the
  task's due date. A task with an invalid due date has no stored form.
\<close>

definition storedAs :: "env \<Rightarrow> task \<Rightarrow> data \<Rightarrow> bool" where
  "storedAs e t d =
     (data_id d = Some (taskId t) \<and> data_name d = name t \<and>
      data_description d = description t \<and>
      (case dueDate t of None \<Rightarrow> False | Some ms \<Rightarrow> data_dueDate d = isoString e ms) \<and>
      data_priority d = priority t \<and> data_isCompleted d = isCompleted t)"

subsection \<open>Mutations\<close>

text \<open>The three mutation operations, and the store that each leaves behind, whatever it
  reports.\<close>

datatype mutation =
  Add int string string string string
| Remove string
| ToggleComplete string

fun mutate :: "env \<Rightarrow> mutation \<Rightarrow> state \<Rightarrow> state" where
  "mutate e (Add now name0 description0 dueDateStr priority0) s =
     snd (addTask e now name0 description0 dueDateStr priority0 s)"
| "mutate e (Remove tid) s = snd (removeTask e tid s)"
| "mutate e (ToggleComplete tid) s = snd (toggleCompleteTask e tid s)"

fun admissible :: "mutation \<Rightarrow> bool" where
  "admissible (Add now name0 description0 dueDateStr priority0) = validPriority priority0"
| "admissible (Remove tid) = True"
| "admissible (ToggleComplete tid) = True"

subsection \<open>Example data\<close>

text \<open>A host in UTC whose parser knows two instants, in the form of the date-time input
  of the page and in the form that \<open>toISOString\<close> writes.\<close>

definition exampleHost :: env where
  "exampleHost =
     \<lparr>parseDate = (\<lambda>str.
        if str = ''2025-06-01T10:00'' \<or> str = ''2025-06-01T10:00:00.000Z''
          then Some 1748772000000
        else if str = ''2025-06-02T10:00'' \<or> str = ''2025-06-02T10:00:00.000Z''
          then Some 1748858400000
        else None),
      isoString = (\<lambda>t.
        if t = 1748772000000 then ''2025-06-01T10:00:00.000Z''
        else if t = 1748858400000 then ''2025-06-02T10:00:00.000Z''
        else ''1970-01-01T00:00:00.000Z'')\<rparr>"

text \<open>Stores and tasks for the examples: A and B are incomplete and due at the same
  instant, C is completed and due a day later.\<close>

definition emptyStore :: state where
  "emptyStore = \<lparr>tasks = [], localStorage = None, emitted = []\<rparr>"

definition taskA :: task where
  "taskA = \<lparr>taskId = ''1'', name = ''A'', description = [],
            dueDate = Some 1748772000000, priority = ''High'', isCompleted = False\<rparr>"

definition taskB :: task where
  "taskB = \<lparr>taskId = ''2'', name = ''B'', description = [],
            dueDate = Some 1748772000000, priority = ''Low'', isCompleted = False\<rparr>"

definition taskC :: task where
  "taskC = \<lparr>taskId = ''3'', name = ''C'', description = ''done'',
            dueDate = Some 1748858400000, priority = ''Medium'', isCompleted = True\<rparr>"

definition storeOf :: "task list \<Rightarrow> state" where
  "storeOf ts = \<lparr>tasks = ts, localStorage = None, emitted = []\<rparr>"

text \<open>Stored arrays: one whose second record has no id, one whose record has a due date
  that does not parse, one whose records have no ids; and a clock
  that reads the same millisecond throughout.\<close>

definition legacyRecords :: "data list" where
  "legacyRecords =
     [\<lparr>data_id = Some ''42'', data_name = ''kept'', data_description = [],
       data_dueDate = ''2025-06-01T10:00:00.000Z'', data_priority = ''High'',
       data_isCompleted = False\<rparr>,
      \<lparr>data_id = None, data_name = ''old'', data_description = [],
       data_dueDate = ''2025-06-02T10:00:00.000Z'', data_priority = ''Low'',
       data_isCompleted = True\<rparr>]"

definition frozenClock :: "nat \<Rightarrow> int" where
  "frozenClock i = 1000"

definition undatedRecords :: "data list" where
  "undatedRecords =
     [\<lparr>data_id = Some ''7'', data_name = ''x'', data_description = [],
       data_dueDate = ''not-a-date'', data_priority = ''High'',
       data_isCompleted = False\<rparr>]"

definition idlessRecords :: "data list" where
  "idlessRecords =
     [\<lparr>data_id = None, data_name = ''a'', data_description = [],
       data_dueDate = ''2025-06-01T10:00:00.000Z'', data_priority = ''High'',
       data_isCompleted = False\<rparr>,
      \<lparr>data_id = None, data_name = ''b'', data_description = [],
       data_dueDate = ''2025-06-02T10:00:00.000Z'', data_priority = ''Low'',
       data_isCompleted = False\<rparr>]"

text \<open>The store after a first task was added, at clock reading 1000, to the empty store.\<close>

definition storeAfterFirst :: state where
  "storeAfterFirst =
     snd (addTask exampleHost 1000 ''first'' [] ''2025-06-01T10:00'' ''High'' emptyStore)"

section \<open>Properties\<close>

subsection \<open>The comparator and the sort key\<close>

lemma wellFormed_key:
  assumes "wellFormed t"
  obtains r d where "sortKey t = Some (isCompleted t, r, d)"
    and "priorityOrder (priority t) = Rank (int r)" and "dueDate t = Some d"
  using assms
  by (auto simp: wellFormed_def validPriority_def sortKey_def priorityRank_def
      priorityOrder_def)

lemma compare_precedes:
  assumes "wellFormed a" and "wellFormed b"
  shows "sortCompare compareTasks a b \<le> 0 \<longleftrightarrow> precedes a b"
proof -
  from assms(1) obtain ra da where
    a: "sortKey a = Some (isCompleted a, ra, da)"
      "priorityOrder (priority a) = Rank (int ra)" "dueDate a = Some da"
    by (rule wellFormed_key)
  from assms(2) obtain rb db where
    b: "sortKey b = Some (isCompleted b, rb, db)"
      "priorityOrder (priority b) = Rank (int rb)" "dueDate b = Some db"
    by (rule wellFormed_key)
  show ?thesis
    by (auto simp: sortCompare_def compareTasks_def precedes_def a b minus_number_def
        getTime_def)
qed

lemma precedes_total:
  assumes "wellFormed a" and "wellFormed b"
  shows "precedes a b \<or> precedes b a"
proof -
  from assms(1) obtain ra da where a: "sortKey a = Some (isCompleted a, ra, da)"
    by (rule wellFormed_key)
  from assms(2) obtain rb db where b: "sortKey b = Some (isCompleted b, rb, db)"
    by (rule wellFormed_key)
  show ?thesis by (auto simp: precedes_def a b)
qed

lemma precedes_trans: "precedes a b \<Longrightarrow> precedes b c \<Longrightarrow> precedes a c"
  by (auto simp: precedes_def split: option.splits)

subsection \<open>The sort\<close>

lemma set_insertSorted: "set (insertSorted c x ys) = insert x (set ys)"
  by (induction ys) auto

lemma mset_insertSorted: "mset (insertSorted c x ys) = add_mset x (mset ys)"
  by (induction ys) auto

lemma mset_sort_array: "mset (sort_array c xs) = mset xs"
  by (induction xs) (auto simp: sort_array_def mset_insertSorted)

lemma set_sort_array: "set (sort_array c xs) = set xs"
  using mset_sort_array [of c xs] by (metis set_mset_mset)

lemma length_sort_array: "length (sort_array c xs) = length xs"
  using mset_sort_array [of c xs] by (metis size_mset)

lemma sorted_insertSorted:
  assumes "sorted_wrt precedes ys" and "\<forall>y\<in>set ys. wellFormed y" and "wellFormed x"
  shows "sorted_wrt precedes (insertSorted compareTasks x ys)"
  using assms
proof (induction ys)
  case Nil
  then show ?case by simp
next
  case (Cons y ys)
  show ?case
  proof (cases "sortCompare compareTasks x y \<le> 0")
    case True
    with Cons.prems have xy: "precedes x y" by (simp add: compare_precedes)
    with Cons.prems have "\<forall>z\<in>set ys. precedes x z" by (auto intro: precedes_trans)
    with True xy Cons.prems show ?thesis by simp
  next
    case False
    with Cons.prems have "\<not> precedes x y" by (simp add: compare_precedes)
    with Cons.prems have "precedes y x" using precedes_total [of x y] by auto
    with False Cons show ?thesis by (auto simp: set_insertSorted)
  qed
qed

lemma sorted_sort_array:
  "\<forall>t\<in>set ts. wellFormed t \<Longrightarrow> sorted_wrt precedes (sort_array compareTasks ts)"
proof (induction ts)
  case Nil
  then show ?case by (simp add: sort_array_def)
next
  case (Cons t ts)
  then have "sorted_wrt precedes (sort_array compareTasks ts)"
    and "\<forall>y\<in>set (sort_array compareTasks ts). wellFormed y" and "wellFormed t"
    by (simp_all add: set_sort_array)
  then have "sorted_wrt precedes (insertSorted compareTasks t (sort_array compareTasks ts))"
    by (rule sorted_insertSorted)
  then show ?case by (simp add: sort_array_def)
qed

lemma sorted_wrt_adjacent:
  "sorted_wrt P xs \<Longrightarrow> Suc i < length xs \<Longrightarrow> P (xs ! i) (xs ! Suc i)"
  by (simp add: sorted_wrt_iff_nth_less)

text \<open>
  C1. For any collection of tasks of the data model, after \<open>sortTasks\<close> the collection
  holds the same tasks, and in every adjacent pair the sort key tuple (completion status,
  priority rank, due date) of the first is less than or equal to that of the second.
\<close>

theorem sortTasks_orders_by_key:
  assumes "\<forall>t\<in>set (tasks s). wellFormed t"
  shows "mset (tasks (sortTasks s)) = mset (tasks s) \<and>
    (\<forall>i. Suc i < length (tasks (sortTasks s)) \<longrightarrow>
       precedes (tasks (sortTasks s) ! i) (tasks (sortTasks s) ! Suc i))"
proof -
  have "sorted_wrt precedes (tasks (sortTasks s))"
    using assms by (simp add: sortTasks_def sorted_sort_array)
  then have "\<forall>i. Suc i < length (tasks (sortTasks s)) \<longrightarrow>
       precedes (tasks (sortTasks s) ! i) (tasks (sortTasks s) ! Suc i)"
    by (blast intro: sorted_wrt_adjacent)
  moreover have "mset (tasks (sortTasks s)) = mset (tasks s)"
    by (simp add: sortTasks_def mset_sort_array)
  ultimately show ?thesis by simp
qed

lemma example_tasks_wellFormed: "wellFormed taskA" "wellFormed taskB" "wellFormed taskC"
  by (simp_all add: wellFormed_def validPriority_def taskA_def taskB_def taskC_def)

lemma sortTasks_example:
  "tasks (sortTasks (storeOf [taskC, taskB, taskA])) = [taskA, taskB, taskC]"
  by (simp add: sortTasks_def storeOf_def sort_array_def sortCompare_def compareTasks_def
      priorityOrder_def minus_number_def getTime_def taskA_def taskB_def taskC_def)

theorem sortTasks_orders_by_key_witness:
  "list_all wellFormed (tasks (storeOf [taskC, taskB, taskA])) \<and>
   tasks (sortTasks (storeOf [taskC, taskB, taskA])) = [taskA, taskB, taskC] \<and>
   precedes taskA taskB \<and> precedes taskB taskC"
proof -
  have wf: "\<forall>t\<in>set (tasks (storeOf [taskC, taskB, taskA])). wellFormed t"
    by (simp add: storeOf_def example_tasks_wellFormed)
  have sorted: "tasks (sortTasks (storeOf [taskC, taskB, taskA])) = [taskA, taskB, taskC]"
    by (rule sortTasks_example)
  from sortTasks_orders_by_key [OF wf]
  have adj: "\<And>i. Suc i < 3 \<Longrightarrow> precedes ([taskA, taskB, taskC] ! i) ([taskA, taskB, taskC] ! Suc i)"
    by (simp add: sorted)
  from adj [of 0] adj [of 1] have "precedes taskA taskB" "precedes taskB taskC"
    by simp_all
  with wf sorted show ?thesis by (simp add: list_all_iff)
qed

lemma storeOf_simps:
  "tasks (storeOf ts) = ts" "localStorage (storeOf ts) = None" "emitted (storeOf ts) = []"
  by (simp_all add: storeOf_def)

subsection \<open>Saving\<close>

lemma saveTasks_Inr:
  assumes "saveTasks e s = Inr s'"
  shows "tasks s' = tasks s" and "emitted s' = emitted s"
    and "\<exists>ds. encodeAll e (tasks s) = Inr ds \<and> localStorage s' = Some (Records ds)"
  using assms by (auto simp: saveTasks_def split: sum.splits)

lemma saveTasks_Inl:
  "saveTasks e s = Inl x \<Longrightarrow> \<exists>t\<in>set (tasks s). dueDate t = None"
proof -
  have "encodeAll e ts = Inl x \<Longrightarrow> \<exists>t\<in>set ts. dueDate t = None" for ts
    by (induction ts) (auto simp: encode_def toISOString_def split: sum.splits option.splits)
  then show "saveTasks e s = Inl x \<Longrightarrow> \<exists>t\<in>set (tasks s). dueDate t = None"
    by (auto simp: saveTasks_def split: sum.splits)
qed

lemma saveTasks_valid:
  assumes "\<forall>t\<in>set (tasks s). dueDate t \<noteq> None"
  obtains s' where "saveTasks e s = Inr s'"
  using assms saveTasks_Inl [of e s] by (cases "saveTasks e s") auto

lemma encodeAll_storedAs:
  "encodeAll e ts = Inr ds \<Longrightarrow> list_all2 (storedAs e) ts ds"
proof (induction ts arbitrary: ds)
  case Nil
  then show ?case by simp
next
  case (Cons t ts)
  from Cons.prems obtain d ds' where d: "encode e t = Inr d"
    and ds': "encodeAll e ts = Inr ds'" and ds: "ds = d # ds'"
    by (auto split: sum.splits)
  from d have "storedAs e t d"
    by (auto simp: encode_def toISOString_def storedAs_def split: option.splits)
  moreover from ds' have "list_all2 (storedAs e) ts ds'" by (rule Cons.IH)
  ultimately show ?case by (simp add: ds)
qed

subsection \<open>Unknown ids\<close>

text \<open>
  C7. For every store and every id that no task of the store holds, \<open>removeTask\<close> and
  \<open>toggleCompleteTask\<close> return \<open>false\<close>, throw nothing, and leave the tasks, their
  order, the storage and the messages as they were.
\<close>

theorem unknown_id_is_noop:
  assumes "tid \<notin> taskId ` set (tasks s)"
  shows "removeTask e tid s = (Inr False, s) \<and> toggleCompleteTask e tid s = (Inr False, s)"
proof -
  from assms have keep: "filter (\<lambda>t. taskId t \<noteq> tid) (tasks s) = tasks s"
    by (auto simp: filter_id_conv)
  from assms have none: "find (\<lambda>t. taskId t = tid) (tasks s) = None"
    by (auto simp: find_None_iff)
  have "removeTask e tid s = (Inr False, s)"
    by (simp add: removeTask_def keep)
  moreover have "toggleCompleteTask e tid s = (Inr False, s)"
    by (simp add: toggleCompleteTask_def none)
  ultimately show ?thesis by simp
qed

theorem unknown_id_is_noop_witness:
  "''9'' \<notin> taskId ` set (tasks (storeOf [taskA, taskB])) \<and>
   removeTask exampleHost ''9'' (storeOf [taskA, taskB]) = (Inr False, storeOf [taskA, taskB]) \<and>
   toggleCompleteTask exampleHost ''9'' (storeOf [taskA, taskB])
     = (Inr False, storeOf [taskA, taskB])"
proof -
  have absent: "''9'' \<notin> taskId ` set (tasks (storeOf [taskA, taskB]))"
    by (simp add: storeOf_def taskA_def taskB_def)
  from unknown_id_is_noop [OF absent, of exampleHost] absent show ?thesis by simp
qed

subsection \<open>Adding\<close>

text \<open>
  C10. When \<open>addTask\<close> reports success, the resulting collection is a permutation of the
  old tasks, each with all of its fields, and the one new task.
\<close>

theorem addTask_success_frame:
  assumes "addTask e now name0 description0 dueDateStr priority0 s = (True, s')"
  shows "mset (tasks s') =
    add_mset (Task now name0 description0 (newDate e dueDateStr) priority0 False)
      (mset (tasks s))"
proof (cases "getTime (newDate e dueDateStr) = None")
  case True
  with assms show ?thesis by (simp add: addTask_def addTaskCatch_def)
next
  case False
  let ?new = "Task now name0 description0 (newDate e dueDateStr) priority0 False"
  let ?s2 = "sortTasks (s\<lparr>tasks := tasks s @ [?new]\<rparr>)"
  from assms False have "saveTasks e ?s2 = Inr s'"
    by (auto simp: addTask_def addTaskCatch_def Let_def split: sum.splits)
  then have "tasks s' = tasks ?s2" by (rule saveTasks_Inr)
  then show ?thesis by (simp add: sortTasks_def mset_sort_array)
qed

lemma addTask_example:
  "addTask exampleHost 1000 ''Buy milk'' [] ''2025-06-01T10:00'' ''High'' (storeOf [taskB, taskC])
    = (True,
       \<lparr>tasks = [Task 1000 ''Buy milk'' [] (Some 1748772000000) ''High'' False, taskB, taskC],
        localStorage = Some (Records
          [\<lparr>data_id = Some ''1000'', data_name = ''Buy milk'', data_description = [],
            data_dueDate = ''2025-06-01T10:00:00.000Z'', data_priority = ''High'',
            data_isCompleted = False\<rparr>,
           \<lparr>data_id = Some ''2'', data_name = ''B'', data_description = [],
            data_dueDate = ''2025-06-01T10:00:00.000Z'', data_priority = ''Low'',
            data_isCompleted = False\<rparr>,
           \<lparr>data_id = Some ''3'', data_name = ''C'', data_description = ''done'',
            data_dueDate = ''2025-06-02T10:00:00.000Z'', data_priority = ''Medium'',
            data_isCompleted = True\<rparr>]),
        emitted = []\<rparr>)"
  by (simp add: addTask_def Let_def newDate_def getTime_def exampleHost_def Task_def
      toString_def digits.simps storeOf_def sortTasks_def sort_array_def sortCompare_def compareTasks_def
      priorityOrder_def minus_number_def taskB_def taskC_def saveTasks_def encode_def
      toISOString_def)

theorem addTask_success_frame_witness:
  "fst (addTask exampleHost 1000 ''Buy milk'' [] ''2025-06-01T10:00'' ''High''
          (storeOf [taskB, taskC])) = True \<and>
   mset (tasks (snd (addTask exampleHost 1000 ''Buy milk'' [] ''2025-06-01T10:00'' ''High''
          (storeOf [taskB, taskC])))) =
     {#Task 1000 ''Buy milk'' [] (Some 1748772000000) ''High'' False, taskB, taskC#}"
proof -
  have "newDate exampleHost ''2025-06-01T10:00'' = Some 1748772000000"
    by (simp add: newDate_def exampleHost_def)
  with addTask_success_frame [OF addTask_example] show ?thesis
    by (simp add: addTask_example storeOf_simps)
qed

text \<open>
  C3, as stated, fails: \<open>addTask\<close> does not look at the name: with an empty name and a date that parses it
  adds the task and reports success.
\<close>

theorem addTask_empty_name_counterexample:
  "addTask exampleHost 1000 [] [] ''2025-06-01T10:00'' ''High'' emptyStore
    = (True,
       \<lparr>tasks = [\<lparr>taskId = ''1000'', name = [], description = [],
                   dueDate = Some 1748772000000, priority = ''High'', isCompleted = False\<rparr>],
        localStorage = Some (Records
          [\<lparr>data_id = Some ''1000'', data_name = [], data_description = [],
            data_dueDate = ''2025-06-01T10:00:00.000Z'', data_priority = ''High'',
            data_isCompleted = False\<rparr>]),
        emitted = []\<rparr>)"
  by (simp add: addTask_def Let_def newDate_def getTime_def exampleHost_def Task_def
      toString_def digits.simps emptyStore_def sortTasks_def sort_array_def saveTasks_def encode_def
      toISOString_def)

text \<open>
  C3, as amended. For every store, \<open>addTask\<close> with a due-date input that does not parse
  to a valid timestamp returns \<open>false\<close> and leaves the tasks and the storage unchanged.
  The name is not checked by \<open>addTask\<close> but by the submit handler of the form, its
  caller: when the trimmed name or the due-date input is empty, the handler does not
  call \<open>addTask\<close> and changes nothing but the alert it shows.
\<close>

theorem invalid_input_rejected:
  "(parseDate e dueDateStr = None \<longrightarrow>
      fst (addTask e now name0 description0 dueDateStr priority0 s) = False \<and>
      tasks (snd (addTask e now name0 description0 dueDateStr priority0 s)) = tasks s \<and>
      localStorage (snd (addTask e now name0 description0 dueDateStr priority0 s))
        = localStorage s) \<and>
   (trim nameInput = [] \<or> dueDateInput = [] \<longrightarrow>
      submitAddTaskForm e now' nameInput descriptionInput dueDateInput priorityInput s
        = s\<lparr>emitted := emitted s @ [Alert ''Task Name and Due Date are required!'']\<rparr>)"
  by (simp add: addTask_def newDate_def getTime_def addTaskCatch_def submitAddTaskForm_def)

theorem invalid_input_rejected_witness:
  "parseDate exampleHost ''not-a-date'' = None \<and>
   fst (addTask exampleHost 1000 ''Buy milk'' [] ''not-a-date'' ''High'' (storeOf [taskA]))
     = False \<and>
   tasks (snd (addTask exampleHost 1000 ''Buy milk'' [] ''not-a-date'' ''High''
     (storeOf [taskA]))) = [taskA] \<and>
   localStorage (snd (addTask exampleHost 1000 ''Buy milk'' [] ''not-a-date'' ''High''
     (storeOf [taskA]))) = None \<and>
   trim ''  '' = [] \<and>
   tasks (submitAddTaskForm exampleHost 1000 ''  '' [] ''2025-06-01T10:00'' ''High''
     (storeOf [taskA])) = [taskA]"
proof -
  have bad: "parseDate exampleHost ''not-a-date'' = None"
    by (simp add: exampleHost_def)
  have blank: "trim ''  '' = []"
    by (simp add: trim_def isWhiteSpace_def)
  from invalid_input_rejected [of exampleHost "''not-a-date''" 1000 "''Buy milk''" "[]"
      "''High''" "storeOf [taskA]" "''  ''" "''2025-06-01T10:00''" 1000 "[]" "''High''"]
    bad blank
  show ?thesis by (simp add: storeOf_def)
qed

subsection \<open>Saving and loading\<close>

lemma loadRecord_encode:
  assumes "storable e t"
  shows "\<exists>d. encode e t = Inr d \<and> (\<forall>now. loadRecord e now d = t)"
proof -
  from assms obtain ms where ms: "dueDate t = Some ms" "parseDate e (isoString e ms) = Some ms"
    and tid: "taskId t \<noteq> []"
    by (auto simp: storable_def split: option.splits)
  let ?d = "\<lparr>data_id = Some (taskId t), data_name = name t,
             data_description = description t, data_dueDate = isoString e ms,
             data_priority = priority t, data_isCompleted = isCompleted t\<rparr>"
  have "encode e t = Inr ?d"
    by (simp add: encode_def toISOString_def ms)
  moreover have "loadRecord e now ?d = t" for now
    by (cases t) (use ms tid in \<open>simp add: loadRecord_def Task_def newDate_def\<close>)
  ultimately show ?thesis by blast
qed

lemma load_encodeAll:
  assumes "\<forall>t\<in>set ts. storable e t"
  shows "\<exists>ds. encodeAll e ts = Inr ds \<and>
          (\<forall>n. map (\<lambda>(i, d). loadRecord e (clock i) d) (enumerate n ds) = ts)"
  using assms
proof (induction ts)
  case Nil
  then show ?case by simp
next
  case (Cons t ts)
  then obtain ds where ds: "encodeAll e ts = Inr ds"
    "\<forall>n. map (\<lambda>(i, d). loadRecord e (clock i) d) (enumerate n ds) = ts"
    by auto
  from Cons.prems have "storable e t" by simp
  then obtain d where d: "encode e t = Inr d" "\<forall>now. loadRecord e now d = t"
    using loadRecord_encode by blast
  have "encodeAll e (t # ts) = Inr (d # ds)"
    by (simp add: d ds)
  moreover have "map (\<lambda>(i, d). loadRecord e (clock i) d) (enumerate n (d # ds)) = t # ts" for n
    by (simp add: d ds)
  ultimately show ?case by blast
qed

lemma loadTasks_Records_nth:
  assumes "k < length ds"
  shows "fst (loadTasks e clock (Some (Records ds))) ! k = loadRecord e (clock k) (ds ! k)"
  using assms by (simp add: loadTasks_def nth_enumerate_eq)

text \<open>
  C2. For any collection of tasks that have a valid due date and an id, on a host whose
  parser reads its own ISO strings back, \<open>saveTasks\<close> succeeds and \<open>loadTasks\<close> then
  returns the same tasks, field for field and in the same order. When any stored text is
  loaded, a record that has a (non-empty) id keeps it: an id is made up only for a
  record that lacks one.
\<close>

theorem save_then_load_roundtrip:
  "((\<forall>t\<in>set (tasks s). storable e t) \<longrightarrow>
      (\<exists>s'. saveTasks e s = Inr s' \<and> tasks s' = tasks s \<and>
            loadTasks e clock (localStorage s') = (tasks s, []))) \<and>
   (\<forall>k i. k < length ds \<and> data_id (ds ! k) = Some i \<and> i \<noteq> [] \<longrightarrow>
      taskId (fst (loadTasks e clock' (Some (Records ds))) ! k) = i)"
proof (intro conjI impI allI)
  assume "\<forall>t\<in>set (tasks s). storable e t"
  then obtain ds' where ds': "encodeAll e (tasks s) = Inr ds'"
    "\<forall>n. map (\<lambda>(i, d). loadRecord e (clock i) d) (enumerate n ds') = tasks s"
    using load_encodeAll [of "tasks s" e clock] by blast
  let ?s' = "s\<lparr>localStorage := Some (Records ds')\<rparr>"
  have "saveTasks e s = Inr ?s'" by (simp add: saveTasks_def ds')
  moreover have "loadTasks e clock (localStorage ?s') = (tasks s, [])"
    by (simp add: loadTasks_def ds')
  ultimately show "\<exists>s'. saveTasks e s = Inr s' \<and> tasks s' = tasks s \<and>
            loadTasks e clock (localStorage s') = (tasks s, [])"
    by simp
next
  fix k i
  assume "k < length ds \<and> data_id (ds ! k) = Some i \<and> i \<noteq> []"
  then show "taskId (fst (loadTasks e clock' (Some (Records ds))) ! k) = i"
    by (simp add: loadTasks_Records_nth loadRecord_def)
qed

lemma example_tasks_storable:
  "storable exampleHost taskA" "storable exampleHost taskB" "storable exampleHost taskC"
  by (simp_all add: storable_def exampleHost_def taskA_def taskB_def taskC_def)

theorem save_then_load_roundtrip_witness:
  "list_all (storable exampleHost) (tasks (storeOf [taskA, taskB, taskC])) \<and>
   (\<exists>s'. saveTasks exampleHost (storeOf [taskA, taskB, taskC]) = Inr s' \<and>
      loadTasks exampleHost frozenClock (localStorage s') = ([taskA, taskB, taskC], [])) \<and>
   data_id (legacyRecords ! 0) = Some ''42'' \<and>
   taskId (fst (loadTasks exampleHost frozenClock (Some (Records legacyRecords))) ! 0) = ''42''"
proof -
  have ok: "\<forall>t\<in>set (tasks (storeOf [taskA, taskB, taskC])). storable exampleHost t"
    by (simp add: storeOf_simps example_tasks_storable)
  have rec: "0 < length legacyRecords \<and> data_id (legacyRecords ! 0) = Some ''42'' \<and> ''42'' \<noteq> []"
    by (simp add: legacyRecords_def)
  from save_then_load_roundtrip
    [of "storeOf [taskA, taskB, taskC]" exampleHost frozenClock legacyRecords frozenClock]
    ok rec
  show ?thesis by (simp add: list_all_iff storeOf_simps) blast
qed

subsection \<open>The tasks that each operation leaves\<close>

lemma addTask_tasks:
  "tasks (snd (addTask e now name0 description0 dueDateStr priority0 s)) =
     (if newDate e dueDateStr = None then tasks s
      else sort_array compareTasks
        (tasks s @ [Task now name0 description0 (newDate e dueDateStr) priority0 False]))"
  by (auto simp: addTask_def addTaskCatch_def getTime_def Let_def sortTasks_def
      dest: saveTasks_Inr(1) split: sum.splits)

lemma removeTask_tasks:
  "tasks (snd (removeTask e tid s)) = filter (\<lambda>t. taskId t \<noteq> tid) (tasks s)"
  by (auto simp: removeTask_def Let_def dest: saveTasks_Inr(1) split: sum.splits)

lemma toggleCompleteTask_tasks:
  "tasks (snd (toggleCompleteTask e tid s)) =
     (case find (\<lambda>t. taskId t = tid) (tasks s) of
        None \<Rightarrow> tasks s
      | Some found \<Rightarrow> sort_array compareTasks (toggleFound tid (tasks s)))"
  by (auto simp: toggleCompleteTask_def Let_def sortTasks_def
      dest: saveTasks_Inr(1) split: sum.splits option.splits)

lemma wellFormed_toggle [simp]: "wellFormed (t\<lparr>isCompleted := b\<rparr>) = wellFormed t"
  by (simp add: wellFormed_def)

lemma wellFormed_toggleFound:
  "\<forall>t\<in>set ts. wellFormed t \<Longrightarrow> \<forall>t\<in>set (toggleFound tid ts). wellFormed t"
  by (induction ts) auto

lemma wellFormed_Task:
  "wellFormed (Task now name0 description0 d priority0 c) \<longleftrightarrow> validPriority priority0 \<and> d \<noteq> None"
  by (simp add: wellFormed_def Task_def)

text \<open>
  C5. Starting from a store of tasks of the data model whose order follows the sort rule
  (every earlier task's key tuple is less than or equal to every later one's), the store
  left by any mutation, \<open>addTask\<close> with one of the three priorities, \<open>removeTask\<close> or
  \<open>toggleCompleteTask\<close>, whether it reports success or failure, follows the sort rule
  again, and its tasks are tasks of the data model. \<open>removeTask\<close> does not sort: a
  filtered sorted array is sorted.
\<close>

theorem mutation_keeps_order:
  assumes "sorted_wrt precedes (tasks s)" and "\<forall>t\<in>set (tasks s). wellFormed t"
    and "admissible m"
  shows "sorted_wrt precedes (tasks (mutate e m s)) \<and>
    (\<forall>t\<in>set (tasks (mutate e m s)). wellFormed t)"
proof (cases m)
  case (Add now name0 description0 dueDateStr priority0)
  show ?thesis
  proof (cases "newDate e dueDateStr = None")
    case True
    with Add assms show ?thesis by (simp add: addTask_tasks)
  next
    case False
    then obtain d where d: "newDate e dueDateStr = Some d" by blast
    let ?ts = "tasks s @ [Task now name0 description0 (Some d) priority0 False]"
    from Add assms have wf: "\<forall>t\<in>set ?ts. wellFormed t"
      by (auto simp: wellFormed_Task)
    then have "sorted_wrt precedes (sort_array compareTasks ?ts)"
      by (rule sorted_sort_array)
    moreover from Add have "tasks (mutate e m s) = sort_array compareTasks ?ts"
      by (simp add: addTask_tasks d)
    ultimately show ?thesis using wf
      by (simp only: set_sort_array)
  qed
next
  case (Remove tid)
  with assms show ?thesis
    by (simp add: removeTask_tasks sorted_wrt_filter)
next
  case (ToggleComplete tid)
  show ?thesis
  proof (cases "find (\<lambda>t. taskId t = tid) (tasks s)")
    case None
    with ToggleComplete assms show ?thesis by (simp add: toggleCompleteTask_tasks)
  next
    case (Some found)
    from assms(2) have wf: "\<forall>t\<in>set (toggleFound tid (tasks s)). wellFormed t"
      by (rule wellFormed_toggleFound)
    then have "sorted_wrt precedes (sort_array compareTasks (toggleFound tid (tasks s)))"
      by (rule sorted_sort_array)
    with wf Some ToggleComplete show ?thesis
      by (simp add: toggleCompleteTask_tasks set_sort_array)
  qed
qed

lemma example_precedes: "precedes taskA taskB" "precedes taskB taskC" "precedes taskA taskC"
  by (simp_all add: precedes_def sortKey_def priorityRank_def taskA_def taskB_def taskC_def)

theorem mutation_keeps_order_witness:
  "sorted_wrt precedes (tasks (storeOf [taskA, taskB, taskC])) \<and>
   list_all wellFormed (tasks (storeOf [taskA, taskB, taskC])) \<and>
   admissible (Remove ''2'') \<and>
   tasks (mutate exampleHost (Remove ''2'') (storeOf [taskA, taskB, taskC])) = [taskA, taskC] \<and>
   sorted_wrt precedes (tasks (mutate exampleHost (Remove ''2'') (storeOf [taskA, taskB, taskC])))"
proof -
  have ord: "sorted_wrt precedes (tasks (storeOf [taskA, taskB, taskC]))"
    by (simp add: storeOf_simps example_precedes)
  have wf: "\<forall>t\<in>set (tasks (storeOf [taskA, taskB, taskC])). wellFormed t"
    by (simp add: storeOf_simps example_tasks_wellFormed)
  have adm: "admissible (Remove ''2'')" by simp
  have "tasks (mutate exampleHost (Remove ''2'') (storeOf [taskA, taskB, taskC])) = [taskA, taskC]"
    by (simp add: removeTask_tasks storeOf_simps taskA_def taskB_def taskC_def)
  with mutation_keeps_order [OF ord wf adm, of exampleHost] ord wf show ?thesis
    by (simp add: list_all_iff)
qed

subsection \<open>Toggling\<close>

lemma mset_toggleFound:
  assumes "find (\<lambda>t. taskId t = tid) ts = Some a"
  shows "mset (toggleFound tid ts) =
    add_mset (a\<lparr>isCompleted := \<not> isCompleted a\<rparr>) (mset ts - {#a#})"
  using assms
proof (induction ts)
  case Nil
  then show ?case by simp
next
  case (Cons t ts)
  show ?case
  proof (cases "taskId t = tid")
    case True
    with Cons.prems show ?thesis by simp
  next
    case False
    with Cons.prems have found: "find (\<lambda>t. taskId t = tid) ts = Some a" by simp
    then have "taskId a = tid" by (auto simp: find_Some_iff)
    with False have "a \<noteq> t" by auto
    with Cons.IH [OF found] False show ?thesis by simp
  qed
qed

text \<open>
  C6. On a store of tasks of the data model, \<open>toggleCompleteTask\<close> with the id of a task
  of the store (the one that \<open>getTaskById\<close> returns) returns \<open>true\<close>; the tasks are then
  the old ones with that one task's \<open>isCompleted\<close> flipped and nothing else changed, in
  sorted order, and the storage then holds, task for task and in the same order, the
  stored objects of exactly these tasks. For incomplete tasks A (High) and B (Low) with
  the same due date, toggling A puts A after B.
\<close>

theorem toggle_present_id:
  "(getTaskById tid s = Some a \<and> (\<forall>t\<in>set (tasks s). wellFormed t) \<longrightarrow>
      (\<exists>s'. toggleCompleteTask e tid s = (Inr True, s') \<and>
         mset (tasks s') = add_mset (a\<lparr>isCompleted := \<not> isCompleted a\<rparr>) (mset (tasks s) - {#a#}) \<and>
         sorted_wrt precedes (tasks s') \<and>
         (\<exists>ds. localStorage s' = Some (Records ds) \<and> list_all2 (storedAs e) (tasks s') ds))) \<and>
   (tasks s0 = [a0, b0] \<and> \<not> isCompleted a0 \<and> \<not> isCompleted b0 \<and>
    priority a0 = ''High'' \<and> priority b0 = ''Low'' \<and>
    dueDate a0 = Some day1 \<and> dueDate b0 = Some day1 \<longrightarrow>
      fst (toggleCompleteTask e (taskId a0) s0) = Inr True \<and>
      tasks (snd (toggleCompleteTask e (taskId a0) s0)) = [b0, a0\<lparr>isCompleted := True\<rparr>])"
proof (intro conjI impI)
  assume asm: "getTaskById tid s = Some a \<and> (\<forall>t\<in>set (tasks s). wellFormed t)"
  then have found: "find (\<lambda>t. taskId t = tid) (tasks s) = Some a"
    and wf: "\<forall>t\<in>set (tasks s). wellFormed t"
    by (simp_all add: getTaskById_def)
  let ?s2 = "sortTasks (s\<lparr>tasks := toggleFound tid (tasks s)\<rparr>)"
  from wf have wf': "\<forall>t\<in>set (toggleFound tid (tasks s)). wellFormed t"
    by (rule wellFormed_toggleFound)
  then have "\<forall>t\<in>set (tasks ?s2). dueDate t \<noteq> None"
    by (simp add: sortTasks_def set_sort_array wellFormed_def)
  then obtain s' where s': "saveTasks e ?s2 = Inr s'"
    by (rule saveTasks_valid)
  then have ts: "tasks s' = tasks ?s2"
    and st: "\<exists>ds. encodeAll e (tasks ?s2) = Inr ds \<and> localStorage s' = Some (Records ds)"
    by (rule saveTasks_Inr)+
  have "toggleCompleteTask e tid s = (Inr True, s')"
    by (simp add: toggleCompleteTask_def found s')
  moreover have "mset (tasks s') =
      add_mset (a\<lparr>isCompleted := \<not> isCompleted a\<rparr>) (mset (tasks s) - {#a#})"
    by (simp add: ts sortTasks_def mset_sort_array mset_toggleFound [OF found])
  moreover have "sorted_wrt precedes (tasks s')"
    using wf' by (simp add: ts sortTasks_def sorted_sort_array)
  moreover have "\<exists>ds. localStorage s' = Some (Records ds) \<and>
      list_all2 (storedAs e) (tasks s') ds"
    using st by (auto simp: ts dest: encodeAll_storedAs)
  ultimately show "\<exists>s'. toggleCompleteTask e tid s = (Inr True, s') \<and>
         mset (tasks s') = add_mset (a\<lparr>isCompleted := \<not> isCompleted a\<rparr>) (mset (tasks s) - {#a#}) \<and>
         sorted_wrt precedes (tasks s') \<and>
         (\<exists>ds. localStorage s' = Some (Records ds) \<and> list_all2 (storedAs e) (tasks s') ds)"
    by blast
next
  assume ex: "tasks s0 = [a0, b0] \<and> \<not> isCompleted a0 \<and> \<not> isCompleted b0 \<and>
    priority a0 = ''High'' \<and> priority b0 = ''Low'' \<and>
    dueDate a0 = Some day1 \<and> dueDate b0 = Some day1"
  then have tog: "toggleFound (taskId a0) (tasks s0) = [a0\<lparr>isCompleted := True\<rparr>, b0]"
    by simp
  from ex have sorted: "sort_array compareTasks [a0\<lparr>isCompleted := True\<rparr>, b0]
      = [b0, a0\<lparr>isCompleted := True\<rparr>]"
    by (simp add: sort_array_def sortCompare_def compareTasks_def)
  let ?s2 = "sortTasks (s0\<lparr>tasks := toggleFound (taskId a0) (tasks s0)\<rparr>)"
  have s2: "tasks ?s2 = [b0, a0\<lparr>isCompleted := True\<rparr>]"
    by (simp add: sortTasks_def tog sorted)
  have "\<forall>t\<in>set [b0, a0\<lparr>isCompleted := True\<rparr>]. dueDate t \<noteq> None"
    using ex by simp
  then have "\<forall>t\<in>set (tasks ?s2). dueDate t \<noteq> None"
    by (simp only: s2)
  then obtain s' where s': "saveTasks e ?s2 = Inr s'"
    by (rule saveTasks_valid)
  from ex have found: "find (\<lambda>t. taskId t = taskId a0) (tasks s0) = Some a0" by simp
  then show "fst (toggleCompleteTask e (taskId a0) s0) = Inr True"
    by (simp add: toggleCompleteTask_def s')
  show "tasks (snd (toggleCompleteTask e (taskId a0) s0)) = [b0, a0\<lparr>isCompleted := True\<rparr>]"
    by (simp add: toggleCompleteTask_tasks found tog sorted)
qed

lemma toggle_example_storage:
  "localStorage (snd (toggleCompleteTask exampleHost ''1'' (storeOf [taskA, taskB])))
     = Some (Records
        [\<lparr>data_id = Some ''2'', data_name = ''B'', data_description = [],
          data_dueDate = ''2025-06-01T10:00:00.000Z'', data_priority = ''Low'',
          data_isCompleted = False\<rparr>,
         \<lparr>data_id = Some ''1'', data_name = ''A'', data_description = [],
          data_dueDate = ''2025-06-01T10:00:00.000Z'', data_priority = ''High'',
          data_isCompleted = True\<rparr>])"
  by (simp add: toggleCompleteTask_def storeOf_def taskA_def taskB_def sortTasks_def
      sort_array_def sortCompare_def compareTasks_def saveTasks_def encode_def
      toISOString_def exampleHost_def)

theorem toggle_present_id_witness:
  "getTaskById ''1'' (storeOf [taskA, taskB]) = Some taskA \<and>
   list_all wellFormed (tasks (storeOf [taskA, taskB])) \<and>
   (\<exists>s'. toggleCompleteTask exampleHost ''1'' (storeOf [taskA, taskB]) = (Inr True, s') \<and>
      mset (tasks s') = {#taskA\<lparr>isCompleted := True\<rparr>, taskB#} \<and>
      sorted_wrt precedes (tasks s') \<and>
      (\<exists>ds. localStorage s' = Some (Records ds) \<and>
         list_all2 (storedAs exampleHost) (tasks s') ds)) \<and>
   tasks (snd (toggleCompleteTask exampleHost ''1'' (storeOf [taskA, taskB])))
     = [taskB, taskA\<lparr>isCompleted := True\<rparr>] \<and>
   localStorage (snd (toggleCompleteTask exampleHost ''1'' (storeOf [taskA, taskB])))
     = Some (Records
        [\<lparr>data_id = Some ''2'', data_name = ''B'', data_description = [],
          data_dueDate = ''2025-06-01T10:00:00.000Z'', data_priority = ''Low'',
          data_isCompleted = False\<rparr>,
         \<lparr>data_id = Some ''1'', data_name = ''A'', data_description = [],
          data_dueDate = ''2025-06-01T10:00:00.000Z'', data_priority = ''High'',
          data_isCompleted = True\<rparr>])"
proof -
  have found: "getTaskById ''1'' (storeOf [taskA, taskB]) = Some taskA"
    by (simp add: getTaskById_def storeOf_simps taskA_def)
  have wf: "\<forall>t\<in>set (tasks (storeOf [taskA, taskB])). wellFormed t"
    by (simp add: storeOf_simps example_tasks_wellFormed)
  have ex: "tasks (storeOf [taskA, taskB]) = [taskA, taskB] \<and>
      \<not> isCompleted taskA \<and> \<not> isCompleted taskB \<and>
      priority taskA = ''High'' \<and> priority taskB = ''Low'' \<and>
      dueDate taskA = Some 1748772000000 \<and> dueDate taskB = Some 1748772000000"
    by (simp add: storeOf_simps taskA_def taskB_def)
  have fields: "taskId taskA = ''1''" "isCompleted taskA = False" "taskA \<noteq> taskB"
    by (simp_all add: taskA_def taskB_def)
  from toggle_present_id [of "''1''" "storeOf [taskA, taskB]" taskA exampleHost
      "storeOf [taskA, taskB]" taskA taskB 1748772000000]
    found wf ex
  have "(\<exists>s'. toggleCompleteTask exampleHost ''1'' (storeOf [taskA, taskB]) = (Inr True, s') \<and>
      mset (tasks s') = add_mset (taskA\<lparr>isCompleted := \<not> isCompleted taskA\<rparr>)
        (mset (tasks (storeOf [taskA, taskB])) - {#taskA#}) \<and>
      sorted_wrt precedes (tasks s') \<and>
      (\<exists>ds. localStorage s' = Some (Records ds) \<and>
         list_all2 (storedAs exampleHost) (tasks s') ds))"
    and "tasks (snd (toggleCompleteTask exampleHost (taskId taskA) (storeOf [taskA, taskB])))
     = [taskB, taskA\<lparr>isCompleted := True\<rparr>]"
    by blast+
  with found wf fields toggle_example_storage show ?thesis
    by (simp add: list_all_iff storeOf_simps)
qed

subsection \<open>Loading\<close>

lemma undated_load:
  "loadTasks exampleHost frozenClock (Some (Records undatedRecords))
    = ([\<lparr>taskId = ''7'', name = ''x'', description = [], dueDate = None,
         priority = ''High'', isCompleted = False\<rparr>], [])"
  by (simp add: loadTasks_def undatedRecords_def loadRecord_def Task_def newDate_def
      exampleHost_def)

lemma undated_store:
  "TaskManager exampleHost frozenClock (Some (Records undatedRecords))
    = \<lparr>tasks = [\<lparr>taskId = ''7'', name = ''x'', description = [], dueDate = None,
                  priority = ''High'', isCompleted = False\<rparr>],
       localStorage = Some (Records undatedRecords), emitted = []\<rparr>"
  by (simp add: TaskManager_def undated_load)

text \<open>
  C8. \<open>loadTasks\<close> does not refuse a stored record whose due date does not parse, as
  \<open>addTask\<close> refuses such an input: it reports nothing and returns a task with an Invalid
  Date. On the store so loaded \<open>saveTasks\<close> throws: toggling the task ends in a
  RangeError, and adding a task with valid input reports failure.
\<close>

theorem loadTasks_admits_invalid_date:
  "loadTasks exampleHost frozenClock (Some (Records undatedRecords))
     = ([\<lparr>taskId = ''7'', name = ''x'', description = [], dueDate = None,
          priority = ''High'', isCompleted = False\<rparr>], []) \<and>
   fst (toggleCompleteTask exampleHost ''7''
          (TaskManager exampleHost frozenClock (Some (Records undatedRecords))))
     = Inl RangeError \<and>
   fst (addTask exampleHost 1000 ''Buy milk'' [] ''2025-06-01T10:00'' ''High''
          (TaskManager exampleHost frozenClock (Some (Records undatedRecords))))
     = False"
proof -
  have "fst (toggleCompleteTask exampleHost ''7''
          (TaskManager exampleHost frozenClock (Some (Records undatedRecords))))
     = Inl RangeError"
    unfolding undated_store
    by (simp add: toggleCompleteTask_def sortTasks_def sort_array_def saveTasks_def
        encode_def toISOString_def)
  moreover have "fst (addTask exampleHost 1000 ''Buy milk'' [] ''2025-06-01T10:00'' ''High''
          (TaskManager exampleHost frozenClock (Some (Records undatedRecords))))
     = False"
    unfolding undated_store
    by (simp add: addTask_def Let_def newDate_def getTime_def
        exampleHost_def Task_def sortTasks_def sort_array_def sortCompare_def
        compareTasks_def priorityOrder_def minus_number_def saveTasks_def encode_def
        toISOString_def addTaskCatch_def)
  ultimately show ?thesis by (simp add: undated_load)
qed

subsection \<open>Ids\<close>

lemma storeAfterFirst_eq:
  "storeAfterFirst =
     \<lparr>tasks = [\<lparr>taskId = ''1000'', name = ''first'', description = [],
                dueDate = Some 1748772000000, priority = ''High'', isCompleted = False\<rparr>],
      localStorage = Some (Records
        [\<lparr>data_id = Some ''1000'', data_name = ''first'', data_description = [],
          data_dueDate = ''2025-06-01T10:00:00.000Z'', data_priority = ''High'',
          data_isCompleted = False\<rparr>]),
      emitted = []\<rparr>"
  by (simp add: storeAfterFirst_def addTask_def Let_def newDate_def getTime_def
      exampleHost_def Task_def toString_def digits.simps emptyStore_def sortTasks_def
      sort_array_def saveTasks_def encode_def toISOString_def)

lemma addTask_same_tick:
  "addTask exampleHost 1000 ''second'' [] ''2025-06-01T10:00'' ''Low'' storeAfterFirst =
     (True,
      \<lparr>tasks = [\<lparr>taskId = ''1000'', name = ''first'', description = [],
                 dueDate = Some 1748772000000, priority = ''High'', isCompleted = False\<rparr>,
                \<lparr>taskId = ''1000'', name = ''second'', description = [],
                 dueDate = Some 1748772000000, priority = ''Low'', isCompleted = False\<rparr>],
       localStorage = Some (Records
         [\<lparr>data_id = Some ''1000'', data_name = ''first'', data_description = [],
           data_dueDate = ''2025-06-01T10:00:00.000Z'', data_priority = ''High'',
           data_isCompleted = False\<rparr>,
          \<lparr>data_id = Some ''1000'', data_name = ''second'', data_description = [],
           data_dueDate = ''2025-06-01T10:00:00.000Z'', data_priority = ''Low'',
           data_isCompleted = False\<rparr>]),
       emitted = []\<rparr>)"
  by (simp add: storeAfterFirst_eq addTask_def Let_def newDate_def getTime_def
      exampleHost_def Task_def toString_def digits.simps sortTasks_def
      sort_array_def sortCompare_def compareTasks_def priorityOrder_def minus_number_def
      saveTasks_def encode_def toISOString_def)

text \<open>
  C9. The ids of the store are not always distinct: the id is the clock reading, so the
  second of two tasks added during one millisecond gets the id of the first, and two
  stored records without id that are loaded during one millisecond get the same id.
\<close>

theorem ids_repeat_within_one_tick:
  "distinct (map taskId (tasks storeAfterFirst)) \<and>
   map taskId (tasks (snd (addTask exampleHost 1000 ''second'' [] ''2025-06-01T10:00'' ''Low''
      storeAfterFirst))) = [''1000'', ''1000''] \<and>
   map taskId (fst (loadTasks exampleHost frozenClock (Some (Records idlessRecords))))
     = [''1000'', ''1000'']"
proof -
  have "distinct (map taskId (tasks storeAfterFirst))"
    by (simp add: storeAfterFirst_eq)
  moreover have "map taskId (tasks (snd (addTask exampleHost 1000 ''second'' []
      ''2025-06-01T10:00'' ''Low'' storeAfterFirst))) = [''1000'', ''1000'']"
    by (simp add: addTask_same_tick)
  moreover have "map taskId (fst (loadTasks exampleHost frozenClock
      (Some (Records idlessRecords)))) = [''1000'', ''1000'']"
    by (simp add: loadTasks_def idlessRecords_def loadRecord_def Task_def frozenClock_def
        toString_def digits.simps)
  ultimately show ?thesis by (intro conjI)
qed

text \<open>
  C4. The id that \<open>addTask\<close> gives is not always fresh: a task added during the
  millisecond in which an earlier one was added gets that task's id, and \<open>getTaskById\<close>
  with this id returns the earlier task, not the new one.
\<close>

theorem addTask_id_not_fresh:
  "fst (addTask exampleHost 1000 ''second'' [] ''2025-06-01T10:00'' ''Low'' storeAfterFirst)
     = True \<and>
   toString 1000 \<in> taskId ` set (tasks storeAfterFirst) \<and>
   getTaskById (toString 1000)
     (snd (addTask exampleHost 1000 ''second'' [] ''2025-06-01T10:00'' ''Low'' storeAfterFirst))
     = Some \<lparr>taskId = ''1000'', name = ''first'', description = [],
             dueDate = Some 1748772000000, priority = ''High'', isCompleted = False\<rparr>"
proof -
  have id: "toString 1000 = ''1000''"
    by (simp add: toString_def digits.simps)
  have "fst (addTask exampleHost 1000 ''second'' [] ''2025-06-01T10:00'' ''Low''
      storeAfterFirst) = True"
    by (simp add: addTask_same_tick)
  moreover have "toString 1000 \<in> taskId ` set (tasks storeAfterFirst)"
    by (simp add: id storeAfterFirst_eq)
  moreover have "getTaskById (toString 1000)
     (snd (addTask exampleHost 1000 ''second'' [] ''2025-06-01T10:00'' ''Low'' storeAfterFirst))
     = Some \<lparr>taskId = ''1000'', name = ''first'', description = [],
             dueDate = Some 1748772000000, priority = ''High'', isCompleted = False\<rparr>"
    by (simp add: id addTask_same_tick getTaskById_def)
  ultimately show ?thesis by (intro conjI)
qed

lemma find_unique:
  assumes "x \<in> set xs" and "P x" and "\<forall>y\<in>set xs. P y \<longrightarrow> y = x"
  shows "find P xs = Some x"
  using assms(1,3)
proof (induction xs)
  case Nil
  then show ?case by simp
next
  case (Cons a xs)
  show ?case
  proof (cases "P a")
    case True
    with Cons.prems have "a = x" by simp
    with True show ?thesis by simp
  next
    case False
    with assms(2) have "a \<noteq> x" by blast
    with Cons.prems have "x \<in> set xs" and "\<forall>y\<in>set xs. P y \<longrightarrow> y = x" by simp_all
    then have "find P xs = Some x" by (rule Cons.IH)
    with False show ?thesis by simp
  qed
qed

text \<open>
  What \<open>addTask\<close> does with a date that parses, on a store whose tasks have valid due
  dates: it reports success, the store has one task more, the new task is in it, and
  the storage holds the stored objects of the new tasks. \<open>getTaskById\<close> finds the new
  task when no earlier task has its id.
\<close>

lemma addTask_valid_input:
  assumes "parseDate e dueDateStr = Some d" and "\<forall>t\<in>set (tasks s). dueDate t \<noteq> None"
  shows "\<exists>s'. addTask e now name0 description0 dueDateStr priority0 s = (True, s') \<and>
    length (tasks s') = Suc (length (tasks s)) \<and>
    Task now name0 description0 (Some d) priority0 False \<in> set (tasks s') \<and>
    (\<exists>rs. localStorage s' = Some (Records rs) \<and> list_all2 (storedAs e) (tasks s') rs) \<and>
    (toString now \<notin> taskId ` set (tasks s) \<longrightarrow>
       getTaskById (toString now) s' = Some (Task now name0 description0 (Some d) priority0 False))"
proof -
  let ?new = "Task now name0 description0 (Some d) priority0 False"
  let ?s2 = "sortTasks (s\<lparr>tasks := tasks s @ [?new]\<rparr>)"
  have ts2: "tasks ?s2 = sort_array compareTasks (tasks s @ [?new])"
    by (simp add: sortTasks_def)
  have set2: "set (tasks ?s2) = insert ?new (set (tasks s))"
    by (simp only: ts2 set_sort_array) simp
  from assms(2) have "\<forall>t\<in>set (tasks ?s2). dueDate t \<noteq> None"
    by (simp only: set2) (simp add: Task_def)
  then obtain s' where s': "saveTasks e ?s2 = Inr s'"
    by (rule saveTasks_valid)
  then have ts: "tasks s' = tasks ?s2"
    and st: "\<exists>ds. encodeAll e (tasks ?s2) = Inr ds \<and> localStorage s' = Some (Records ds)"
    by (rule saveTasks_Inr)+
  have "addTask e now name0 description0 dueDateStr priority0 s = (True, s')"
    using assms(1) s' by (simp add: addTask_def newDate_def getTime_def)
  moreover have "length (tasks s') = Suc (length (tasks s))"
    by (simp only: ts ts2 length_sort_array) simp
  moreover have "?new \<in> set (tasks s')"
    by (simp only: ts set2) simp
  moreover have "\<exists>rs. localStorage s' = Some (Records rs) \<and>
      list_all2 (storedAs e) (tasks s') rs"
    using st by (auto simp: ts dest: encodeAll_storedAs)
  moreover have "toString now \<notin> taskId ` set (tasks s) \<longrightarrow>
      getTaskById (toString now) s' = Some ?new"
  proof
    assume fresh: "toString now \<notin> taskId ` set (tasks s)"
    have new_id: "taskId ?new = toString now" by (simp add: Task_def)
    have only: "y = ?new" if y: "y \<in> set (tasks s')" "taskId y = toString now" for y
    proof -
      from y(1) have "y = ?new \<or> y \<in> set (tasks s)"
        by (simp only: ts set2 insert_iff)
      moreover from fresh y(2) have "y \<notin> set (tasks s)"
        by (metis imageI)
      ultimately show ?thesis by blast
    qed
    have mem: "?new \<in> set (tasks s')" by (simp only: ts set2 insertI1)
    have "find (\<lambda>t. taskId t = toString now) (tasks s') = Some ?new"
      using mem new_id only by (intro find_unique) blast+
    then show "getTaskById (toString now) s' = Some ?new"
      by (simp only: getTaskById_def)
  qed
  ultimately show ?thesis by blast
qed

end
